theory Spec2Isabelle
  imports Complex_Main "HOL-Library.AList"
begin

section \<open>Values and containers of the TypeScript sources\<close>

text \<open>
  A value of type \<open>any\<close>. An object literal is an association list in insertion
  order; \<open>JUndefined\<close> is what reading a missing key gives. A number is the real
  value of the double: the sources compare numbers with constants and do one
  computation on them, \<open>length * 0.1\<close>, which is modelled as the product of doubles
  (see \<open>times_tenth\<close>).
\<close>

datatype json =
    JUndefined
  | JNull
  | JBool bool
  | JNum real
  | JStr string
  | JArr "json list"
  | JObj "(string \<times> json) list"

type_synonym obj = "(string \<times> json) list"

text \<open>Property read \<open>o.k\<close>.\<close>

definition obj_get :: "obj \<Rightarrow> string \<Rightarrow> json" where
  "obj_get ob k = (case map_of ob k of None \<Rightarrow> JUndefined | Some v \<Rightarrow> v)"

text \<open>Property write \<open>o.k = v\<close>: an existing key keeps its place, a new one is appended.\<close>

definition obj_set :: "string \<Rightarrow> json \<Rightarrow> obj \<Rightarrow> obj" where
  "obj_set k v ob = AList.update k v ob"

text \<open>Object spread \<open>{...a, ...b}\<close>: the keys of \<open>b\<close> are written over a copy of \<open>a\<close>.\<close>

definition obj_spread :: "obj \<Rightarrow> obj \<Rightarrow> obj" where
  "obj_spread a b = fold (\<lambda>(k, v). obj_set k v) b a"

text \<open>JavaScript truthiness, as used by \<open>if (x)\<close>, \<open>&&\<close> and \<open>Array.filter\<close>.\<close>

fun truthy :: "json \<Rightarrow> bool" where
  "truthy JUndefined = False"
| "truthy JNull = False"
| "truthy (JBool b) = b"
| "truthy (JNum x) = (x \<noteq> 0)"
| "truthy (JStr s) = (s \<noteq> [])"
| "truthy (JArr xs) = True"
| "truthy (JObj ob) = True"

text \<open>
  A JavaScript \<open>Map\<close>: keys are unique and iteration follows insertion order.
  \<open>Map.set\<close> on a key already present keeps its place (\<open>AList.update\<close>),
  \<open>Map.delete\<close> removes it (\<open>AList.delete\<close>), \<open>Map.get\<close> is \<open>map_of\<close>.
\<close>

definition Map_has :: "('k \<times> 'v) list \<Rightarrow> 'k \<Rightarrow> bool" where
  "Map_has m k = (map_of m k \<noteq> None)"

section \<open>Shared interfaces\<close>

record Position =
  area :: string
  order :: nat
  width :: "string option"
  maxWidth :: "string option"
  gridColumn :: "nat option"
  gridRow :: "nat option"

text \<open>\<open>Partial<Position>\<close>: every field may be missing.\<close>

record PartialPosition =
  p_area :: "string option"
  p_order :: "nat option"
  p_width :: "string option"
  p_maxWidth :: "string option"
  p_gridColumn :: "nat option"
  p_gridRow :: "nat option"

text \<open>
  \<open>AnimationConfig\<close>. The rules of the mapper give partial literals (no \<open>exit\<close>),
  and \<open>Object.assign\<close> can install such a literal as the whole configuration, so every
  field is optional in the model.
\<close>

record AnimationConfig =
  enter :: "string option"
  exit :: "string option"
  duration :: "real option"
  stagger :: "real option"
  ease :: "real list option"

record ComponentInstance =
  cid :: string
  ctype :: string
  props :: obj
  position :: Position
  animationDelay :: "real option"

section \<open>IntentAnalyzer.ts: the analysis consumed by the mapper\<close>

record Intent =
  itype :: string
  confidence :: real
  originalMessage :: string

record IntentAnalysis =
  intent :: Intent
  entities :: obj
  "context" :: obj
  suggestedResponse :: string
  uiHints :: obj
  timestamp :: string

section \<open>IntentMapper\<close>

datatype error = TypeError | RuleError | AnimationRejected

text \<open>\<open>ComponentDefinition.props\<close> is a plain object or a function of the analysis.\<close>

datatype PropsSource = Static obj | Derived "IntentAnalysis \<Rightarrow> obj"

record ComponentDefinition =
  d_type :: string
  d_props :: PropsSource
  d_position :: Position

text \<open>
  The mapper's \<open>UIInstruction\<close>. \<open>i_props\<close> is the property \<open>props\<close> that
  \<open>Object.assign\<close> adds to the draft when a modification carries one; the interface
  does not declare it.
\<close>

record UIInstruction =
  i_action :: string
  i_components :: "ComponentInstance list"
  i_layout :: string
  i_animation :: AnimationConfig
  i_priority :: "string option"
  i_props :: "obj option"

text \<open>
  \<open>modifications: Record<string, any>\<close>, read by \<open>Object.assign\<close> onto the draft:
  one optional entry for each property of the draft it can overwrite.
\<close>

record Modifications =
  m_action :: "string option"
  m_components :: "ComponentInstance list option"
  m_layout :: "string option"
  m_animation :: "AnimationConfig option"
  m_priority :: "string option"
  m_props :: "obj option"

record RuleInstruction =
  r_action :: string
  r_components :: "ComponentDefinition list option"
  r_layout :: "string option"
  r_animation :: "AnimationConfig option"
  r_modifications :: "Modifications option"

text \<open>A condition may throw; \<open>Inl\<close> is the exception.\<close>

record MappingRule =
  rule_id :: string
  condition :: "IntentAnalysis \<Rightarrow> error + bool"
  instruction :: RuleInstruction

text \<open>
  The readings of \<open>Date.now()\<close> and \<open>Math.random()\<close>: \<open>idSuffix k\<close> is the text
  \<open>${Date.now()}-${Math.random().toString(36).substr(2, 9)}\<close> of the \<open>k\<close>-th
  component synthesized by one merge, \<open>helpStamp\<close> the text of \<open>Date.now()\<close> in
  the default instruction.
\<close>

record MapperEnv =
  idSuffix :: "nat \<Rightarrow> string"
  helpStamp :: string

definition anim :: "string option \<Rightarrow> string option \<Rightarrow> real option \<Rightarrow> real option \<Rightarrow> AnimationConfig" where
  "anim en ex du st = \<lparr>enter = en, exit = ex, duration = du, stagger = st, ease = None\<rparr>"

definition pos :: "string \<Rightarrow> nat \<Rightarrow> Position" where
  "pos a n = \<lparr>area = a, order = n, width = None, maxWidth = None, gridColumn = None, gridRow = None\<rparr>"

definition no_modifications :: Modifications where
  "no_modifications = \<lparr>m_action = None, m_components = None, m_layout = None,
     m_animation = None, m_priority = None, m_props = None\<rparr>"

subsection \<open>extractFilters, getAvailableFilters\<close>

definition copy_if :: "obj \<Rightarrow> string \<Rightarrow> string \<Rightarrow> obj \<Rightarrow> obj" where
  "copy_if ents src dst filters =
     (if truthy (obj_get ents src) then obj_set dst (obj_get ents src) filters else filters)"

definition extractFilters :: "obj \<Rightarrow> obj" where
  "extractFilters ents =
     copy_if ents ''style'' ''style''
       (copy_if ents ''price_range'' ''priceRange''
         (copy_if ents ''occasion'' ''occasion''
           (copy_if ents ''product_type'' ''category''
             (copy_if ents ''color'' ''color'' []))))"

definition getAvailableFilters :: "obj \<Rightarrow> string list" where
  "getAvailableFilters ents =
     (let allFilters = [''category'', ''color'', ''size'', ''price'', ''occasion'', ''style'', ''material''];
          mentionedFilters = map fst (extractFilters ents);
          otherFilters = filter (\<lambda>f. f \<notin> set mentionedFilters) allFilters
      in mentionedFilters @ otherFilters)"

subsection \<open>initializeMappingRules\<close>

definition add_rule :: "string \<Rightarrow> (IntentAnalysis \<Rightarrow> error + bool) \<Rightarrow> ComponentDefinition list
    \<Rightarrow> string \<Rightarrow> AnimationConfig \<Rightarrow> MappingRule" where
  "add_rule rid cond defs lay an =
     \<lparr>rule_id = rid, condition = cond,
      instruction = \<lparr>r_action = ''add'', r_components = Some defs, r_layout = Some lay,
        r_animation = Some an, r_modifications = None\<rparr>\<rparr>"

definition cdef :: "string \<Rightarrow> PropsSource \<Rightarrow> string \<Rightarrow> nat \<Rightarrow> ComponentDefinition" where
  "cdef t p a n = \<lparr>d_type = t, d_props = p, d_position = pos a n\<rparr>"

definition greeting_rule :: MappingRule where
  "greeting_rule = add_rule ''greeting_rule''
     (\<lambda>a. Inr (itype (intent a) = ''greeting'' \<and> confidence (intent a) > 0.7))
     [cdef ''WelcomeHero''
        (Static [(''message'', JStr ''Welcome to our world of luxury''),
                 (''subtitle'', JStr ''How may we assist you today?'')]) ''hero'' 0,
      cdef ''SuggestionCards''
        (Static [(''suggestions'', JArr
           [JObj [(''text'', JStr ''Browse New Arrivals''), (''intent'', JStr ''product_browse'')],
            JObj [(''text'', JStr ''Book Styling Session''), (''intent'', JStr ''appointment'')],
            JObj [(''text'', JStr ''Explore Collections''), (''intent'', JStr ''brand_story'')]])])
        ''main'' 1]
     ''centered'' (anim (Some ''fadeInUp'') None (Some 0.6) (Some 0.2))"

definition browse_rule :: MappingRule where
  "browse_rule = add_rule ''browse_rule''
     (\<lambda>a. Inr (itype (intent a) = ''product_browse'' \<and> confidence (intent a) > 0.6))
     [cdef ''ProductGrid''
        (Derived (\<lambda>a. [(''filters'', JObj (extractFilters (entities a))),
                        (''initialProducts'', JNum 12),
                        (''enableInfiniteScroll'', JBool True)])) ''main'' 0,
      cdef ''FilterPanel''
        (Derived (\<lambda>a. [(''availableFilters'', JArr (map JStr (getAvailableFilters (entities a)))),
                        (''activeFilters'', JObj (extractFilters (entities a))),
                        (''position'', JStr ''sidebar'')])) ''sidebar'' 0]
     ''two-column'' (anim (Some ''slideIn'') None (Some 0.5) None)"

definition detail_rule :: MappingRule where
  "detail_rule = add_rule ''detail_rule''
     (\<lambda>a. Inr (itype (intent a) = ''product_detail'' \<and> truthy (obj_get (entities a) ''productId'')))
     [cdef ''ProductDetailView''
        (Derived (\<lambda>a. [(''productId'', obj_get (entities a) ''productId''),
                        (''showCraftsmanship'', JBool True),
                        (''enable360View'', JBool True)])) ''main'' 0,
      cdef ''RelatedProducts''
        (Derived (\<lambda>a. [(''productId'', obj_get (entities a) ''productId''),
                        (''maxItems'', JNum 4)])) ''bottom'' 1]
     ''full-width'' (anim (Some ''fadeIn'') None (Some 0.4) None)"

definition style_advice_rule :: MappingRule where
  "style_advice_rule = add_rule ''style_advice_rule''
     (\<lambda>a. Inr (itype (intent a) = ''style_advice''))
     [cdef ''StyleAdvisor''
        (Derived (\<lambda>a. [(''occasion'', obj_get (entities a) ''occasion''),
                        (''preferences'', JObj (entities a)),
                        (''mode'', JStr ''interactive'')])) ''main'' 0,
      cdef ''OutfitBuilder''
        (Static [(''allowMixMatch'', JBool True), (''showPricing'', JBool True)]) ''sidebar'' 0]
     ''split-view'' (anim (Some ''slideInFromRight'') None (Some 0.5) None)"

definition store_visit_rule :: MappingRule where
  "store_visit_rule = add_rule ''store_visit_rule''
     (\<lambda>a. Inr (itype (intent a) = ''store_visit''))
     [cdef ''StoreLocator''
        (Static [(''showMap'', JBool True), (''enableGeolocation'', JBool True)]) ''main'' 0,
      cdef ''AppointmentScheduler''
        (Static [(''serviceTypes'', JArr [JStr ''personal-shopping'', JStr ''styling-consultation'']),
                 (''showAvailability'', JBool True)]) ''sidebar'' 0]
     ''map-view'' (anim (Some ''expandFromCenter'') None (Some 0.6) None)"

definition urgency_modifier :: MappingRule where
  "urgency_modifier =
     \<lparr>rule_id = ''urgency_modifier'',
      condition = (\<lambda>a. Inr (obj_get (context a) ''urgency'' = JStr ''high''
                              \<and> confidence (intent a) > 0.8)),
      instruction = \<lparr>r_action = ''modify'', r_components = None, r_layout = None,
        r_animation = None,
        r_modifications = Some (no_modifications\<lparr>
          m_animation := Some (anim (Some ''instant'') None (Some 0.3) None),
          m_props := Some [(''priority'', JStr ''high''), (''showQuickActions'', JBool True)]\<rparr>)\<rparr>\<rparr>"

definition initializeMappingRules :: "MappingRule list" where
  "initializeMappingRules =
     [greeting_rule, browse_rule, detail_rule, style_advice_rule, store_visit_rule,
      urgency_modifier]"

subsection \<open>evaluateRule, mergeInstructions, getDefaultInstruction, mapToUIInstructions\<close>

text \<open>\<open>try { return rule.condition(analysis) } catch { return false }\<close>\<close>

definition evaluateRule :: "MappingRule \<Rightarrow> IntentAnalysis \<Rightarrow> bool" where
  "evaluateRule rule analysis =
     (case condition rule analysis of Inl e \<Rightarrow> False | Inr b \<Rightarrow> b)"

text \<open>\<open>{ ...a, ...b }\<close> on animation configurations: a field present in \<open>b\<close> wins.\<close>

definition or_else :: "'a option \<Rightarrow> 'a option \<Rightarrow> 'a option" where
  "or_else b a = (case b of None \<Rightarrow> a | Some x \<Rightarrow> Some x)"

definition anim_spread :: "AnimationConfig \<Rightarrow> AnimationConfig \<Rightarrow> AnimationConfig" where
  "anim_spread a b =
     \<lparr>enter = or_else (enter b) (enter a), exit = or_else (exit b) (exit a),
      duration = or_else (duration b) (duration a), stagger = or_else (stagger b) (stagger a),
      ease = or_else (ease b) (ease a)\<rparr>"

text \<open>\<open>Object.assign(baseInstruction, instruction.modifications)\<close>\<close>

definition object_assign :: "UIInstruction \<Rightarrow> Modifications \<Rightarrow> UIInstruction" where
  "object_assign base m =
     \<lparr>i_action = (case m_action m of None \<Rightarrow> i_action base | Some x \<Rightarrow> x),
      i_components = (case m_components m of None \<Rightarrow> i_components base | Some x \<Rightarrow> x),
      i_layout = (case m_layout m of None \<Rightarrow> i_layout base | Some x \<Rightarrow> x),
      i_animation = (case m_animation m of None \<Rightarrow> i_animation base | Some x \<Rightarrow> x),
      i_priority = or_else (m_priority m) (i_priority base),
      i_props = or_else (m_props m) (i_props base)\<rparr>"

text \<open>
  \<open>baseInstruction.components.length * 0.1\<close> is a product of JavaScript numbers, that
  is of IEEE-754 binary64 values, rounded to nearest with ties to even. The double of the
  literal \<open>0.1\<close> is \<open>3602879701896397 / 2^55\<close>. A length \<open>n\<close> is an integer below
  \<open>2^53\<close> and so a double itself; the exact product is \<open>n * 3602879701896397 / 2^55\<close>,
  and the result is that number with its numerator rounded to 53 significant bits. The
  result is 0 or at least 0.1, so it is neither subnormal nor out of range.

  \<open>shift53 N\<close> is the number of low bits of \<open>N\<close> that do not fit in 53 bits, and
  \<open>round53 N\<close> rounds them away: up when they are more than half a unit of the kept
  bits, or exactly half with an odd kept part.
\<close>

definition tenth_mantissa :: nat where
  "tenth_mantissa = 3602879701896397"

fun shift53 :: "nat \<Rightarrow> nat" where
  "shift53 N = (if N < 2 ^ 53 then 0 else Suc (shift53 (N div 2)))"

declare shift53.simps [simp del]

definition round53 :: "nat \<Rightarrow> nat" where
  "round53 N =
     (let s = shift53 N; q = N div 2 ^ s; r = N mod 2 ^ s
      in (if 2 * r > 2 ^ s \<or> (2 * r = 2 ^ s \<and> odd q) then q + 1 else q) * 2 ^ s)"

definition times_tenth :: "nat \<Rightarrow> real" where
  "times_tenth n = real (round53 (n * tenth_mantissa)) / 2 ^ 55"

text \<open>
  The body of \<open>instruction.components.forEach\<close>. The draft travels with the number of
  ids synthesized so far, which selects the reading of the clock and the random source.
\<close>

definition push_component :: "IntentAnalysis \<Rightarrow> MapperEnv \<Rightarrow> ComponentDefinition
    \<Rightarrow> nat \<times> UIInstruction \<Rightarrow> nat \<times> UIInstruction" where
  "push_component analysis env cdf st =
     (case st of (k, base) \<Rightarrow>
        (Suc k,
         base\<lparr>i_components := i_components base @
           [\<lparr>cid = d_type cdf @ ''-'' @ idSuffix env k,
             ctype = d_type cdf,
             props = (case d_props cdf of Static p \<Rightarrow> p | Derived f \<Rightarrow> f analysis),
             position = d_position cdf,
             animationDelay = Some (times_tenth (length (i_components base)))\<rparr>]\<rparr>))"

text \<open>The body of \<open>rules.forEach\<close>.\<close>

definition merge_rule :: "IntentAnalysis \<Rightarrow> MapperEnv \<Rightarrow> MappingRule
    \<Rightarrow> nat \<times> UIInstruction \<Rightarrow> nat \<times> UIInstruction" where
  "merge_rule analysis env rule st =
     (let instr = instruction rule in
      if r_action instr = ''modify'' then
        (case r_modifications instr of
           None \<Rightarrow> st
         | Some m \<Rightarrow> (fst st, object_assign (snd st) m))
      else
        (let st1 = (case r_components instr of
                      None \<Rightarrow> st
                    | Some defs \<Rightarrow> fold (push_component analysis env) defs st);
             st2 = (case r_layout instr of
                      None \<Rightarrow> st1
                    | Some l \<Rightarrow> if l \<noteq> [] then (fst st1, (snd st1)\<lparr>i_layout := l\<rparr>) else st1)
         in (case r_animation instr of
               None \<Rightarrow> st2
             | Some an \<Rightarrow> (fst st2, (snd st2)\<lparr>i_animation := anim_spread (i_animation (snd st2)) an\<rparr>))))"

definition baseInstruction :: UIInstruction where
  "baseInstruction =
     \<lparr>i_action = ''add'', i_components = [], i_layout = ''default'',
      i_animation = anim (Some ''fadeIn'') (Some ''fadeOut'') (Some 0.5) None,
      i_priority = None, i_props = None\<rparr>"

definition mergeInstructions :: "MapperEnv \<Rightarrow> MappingRule list \<Rightarrow> IntentAnalysis \<Rightarrow> UIInstruction" where
  "mergeInstructions env rules analysis =
     snd (fold (merge_rule analysis env) rules (0, baseInstruction))"

definition getDefaultInstruction :: "MapperEnv \<Rightarrow> UIInstruction" where
  "getDefaultInstruction env =
     \<lparr>i_action = ''add'',
      i_components =
        [\<lparr>cid = ''help-'' @ helpStamp env,
          ctype = ''HelpPanel'',
          props = [(''message'', JStr ''I'm here to help. What would you like to explore?''),
                   (''showSuggestions'', JBool True)],
          position = pos ''main'' 0,
          animationDelay = None\<rparr>],
      i_layout = ''centered'',
      i_animation = anim (Some ''fadeIn'') (Some ''fadeOut'') (Some 0.3) None,
      i_priority = None, i_props = None\<rparr>"

text \<open>The mapper object: its rule list is fixed by the constructor.\<close>

record IntentMapper =
  mappingRules :: "MappingRule list"

definition newIntentMapper :: IntentMapper where
  "newIntentMapper = \<lparr>mappingRules = initializeMappingRules\<rparr>"

definition mapToUIInstructions :: "IntentMapper \<Rightarrow> MapperEnv \<Rightarrow> IntentAnalysis \<Rightarrow> UIInstruction" where
  "mapToUIInstructions this env analysis =
     (let matchingRules = filter (\<lambda>rule. evaluateRule rule analysis) (mappingRules this) in
      if length matchingRules = 0 then getDefaultInstruction env
      else mergeInstructions env matchingRules analysis)"

section \<open>ComponentRegistry\<close>

record ComponentMetadata =
  category :: string
  description :: string
  requiredProps :: "string list option"
  optionalProps :: "string list option"

text \<open>
  The two maps of the registry. \<open>'c\<close> is \<open>React.ComponentType<any>\<close>, which the
  registry stores and returns without looking inside.
\<close>

record 'c ComponentRegistry =
  components :: "(string \<times> 'c) list"
  metadata :: "(string \<times> ComponentMetadata) list"

definition emptyRegistry :: "'c ComponentRegistry" where
  "emptyRegistry = \<lparr>components = [], metadata = []\<rparr>"

definition register :: "string \<Rightarrow> 'c \<Rightarrow> ComponentMetadata option \<Rightarrow> 'c ComponentRegistry
    \<Rightarrow> 'c ComponentRegistry" where
  "register name component md this =
     (let this1 = this\<lparr>components := AList.update name component (components this)\<rparr> in
      case md of
        None \<Rightarrow> this1
      | Some m \<Rightarrow> this1\<lparr>metadata := AList.update name m (metadata this1)\<rparr>)"

definition get :: "'c ComponentRegistry \<Rightarrow> string \<Rightarrow> 'c option" where
  "get this name = map_of (components this) name"

definition getMetadata :: "'c ComponentRegistry \<Rightarrow> string \<Rightarrow> ComponentMetadata option" where
  "getMetadata this name = map_of (metadata this) name"

definition has :: "'c ComponentRegistry \<Rightarrow> string \<Rightarrow> bool" where
  "has this name = Map_has (components this) name"

definition getComponentNames :: "'c ComponentRegistry \<Rightarrow> string list" where
  "getComponentNames this = map fst (components this)"

text \<open>
  A registry is only ever reached from the empty one (the singleton's private constructor)
  by calls of \<open>register\<close>; a history is the list of the calls made so far.
\<close>

type_synonym 'c registration = "string \<times> 'c \<times> ComponentMetadata option"

definition registryAfter :: "'c registration list \<Rightarrow> 'c ComponentRegistry" where
  "registryAfter calls = fold (\<lambda>(name, component, md). register name component md) calls emptyRegistry"

section \<open>AssemblyEngine\<close>

datatype Status = Mounting | Mounted | Unmounting

record ComponentState = ComponentInstance +
  status :: Status
  mountedAt :: nat

record ComponentUpdate =
  u_id :: string
  u_props :: "obj option"
  u_position :: "PartialPosition option"

text \<open>The engine's \<open>UIInstruction\<close>: every payload is optional.\<close>

record EngineInstruction =
  e_action :: string
  e_components :: "ComponentInstance list option"
  e_componentIds :: "string list option"
  e_updates :: "ComponentUpdate list option"
  e_layout :: "string option"
  e_animation :: "AnimationConfig option"

text \<open>\<open>layout\<close> is \<open>None\<close> when the engine was reorganized with an instruction without one.\<close>

record AssemblyState =
  s_components :: "ComponentState list"
  s_layout :: "string option"
  s_timestamp :: nat

text \<open>
  The animation executor is an external collaborator. The engine only awaits its
  promises, so it is a parameter saying which promises resolve (\<open>True\<close>) and which
  reject (\<open>False\<close>).
\<close>

record AnimationOrchestrator =
  animateIn :: "string \<Rightarrow> AnimationConfig \<Rightarrow> real option \<Rightarrow> bool"
  animateOut :: "string \<Rightarrow> AnimationConfig \<Rightarrow> bool"
  animateLayoutChange :: "string list \<Rightarrow> bool"

text \<open>
  The readings of \<open>Date.now()\<close>: \<open>mountClock k\<close> when the \<open>k\<close>-th component of
  an Add batch is inserted, \<open>snapshotClock\<close> in \<open>getState\<close>.
\<close>

record EngineClock =
  mountClock :: "nat \<Rightarrow> nat"
  snapshotClock :: nat

record LayoutEngine =
  currentLayout :: "string option"

text \<open>\<open>'cb\<close> is the type of subscriber callbacks.\<close>

record 'cb AssemblyEngine =
  activeComponents :: "(string \<times> ComponentState) list"
  layoutEngine :: LayoutEngine
  updateCallback :: "'cb option"

definition newAssemblyEngine :: "'cb AssemblyEngine" where
  "newAssemblyEngine =
     \<lparr>activeComponents = [], layoutEngine = \<lparr>currentLayout = Some ''default''\<rparr>,
      updateCallback = None\<rparr>"

subsection \<open>LayoutEngine.calculatePositions\<close>

definition centeredPosition :: "nat \<Rightarrow> Position" where
  "centeredPosition index =
     \<lparr>area = ''center'', order = index, width = Some ''100%'', maxWidth = Some ''600px'',
      gridColumn = None, gridRow = None\<rparr>"

definition sidebarPosition :: "nat \<Rightarrow> Position" where
  "sidebarPosition index =
     \<lparr>area = ''sidebar'', order = index, width = Some ''300px'', maxWidth = None,
      gridColumn = None, gridRow = None\<rparr>"

definition mainPosition :: "nat \<Rightarrow> Position" where
  "mainPosition index =
     \<lparr>area = ''main'', order = index, width = Some ''100%'', maxWidth = None,
      gridColumn = None, gridRow = None\<rparr>"

definition gridPosition :: "nat \<Rightarrow> Position" where
  "gridPosition index =
     \<lparr>area = ''grid'', order = index, width = Some ''auto'', maxWidth = None,
      gridColumn = Some ((index mod 3) + 1), gridRow = Some ((index div 3) + 1)\<rparr>"

text \<open>\<open>xs.forEach((component, index) => positions.set(component.id, f(index)))\<close>\<close>

definition setPositions :: "(nat \<Rightarrow> Position) \<Rightarrow> ComponentState list
    \<Rightarrow> (string \<times> Position) list \<Rightarrow> (string \<times> Position) list" where
  "setPositions f xs positions =
     fold (\<lambda>(index, component). AList.update (cid component) (f index)) (enumerate 0 xs) positions"

definition isSidebarType :: "ComponentState \<Rightarrow> bool" where
  "isSidebarType c = (ctype c \<in> set [''FilterPanel'', ''NavigationPanel''])"

text \<open>
  The layout key is \<open>None\<close> for JavaScript's \<open>undefined\<close>, which matches no
  \<open>case\<close> label. The result is the map of positions and the layout engine with
  \<open>currentLayout\<close> assigned.
\<close>

definition calculatePositions :: "LayoutEngine \<Rightarrow> ComponentState list \<Rightarrow> string option
    \<Rightarrow> (string \<times> Position) list \<times> LayoutEngine" where
  "calculatePositions this comps layout =
     (let positions =
        (if layout = Some ''centered'' then setPositions centeredPosition comps []
         else if layout = Some ''two-column'' then
           (let sidebarComponents = filter isSidebarType comps;
                mainComponents = filter (\<lambda>c. \<not> isSidebarType c) comps
            in setPositions mainPosition mainComponents
                 (setPositions sidebarPosition sidebarComponents []))
         else if layout = Some ''grid'' then setPositions gridPosition comps []
         else setPositions mainPosition comps [])
      in (positions, this\<lparr>currentLayout := layout\<rparr>))"

definition getCurrentLayout :: "LayoutEngine \<Rightarrow> string option" where
  "getCurrentLayout this = currentLayout this"

subsection \<open>addComponents\<close>

definition mountingState :: "ComponentInstance \<Rightarrow> nat \<Rightarrow> ComponentState" where
  "mountingState component now =
     \<lparr>cid = cid component, ctype = ctype component, props = props component,
      position = position component, animationDelay = animationDelay component,
      status = Mounting, mountedAt = now\<rparr>"

text \<open>The \<open>for\<close> loop of \<open>addComponents\<close>; \<open>k\<close> is the index of the next component.\<close>

fun addLoop :: "'c ComponentRegistry \<Rightarrow> EngineClock \<Rightarrow> nat \<Rightarrow> ComponentInstance list
    \<Rightarrow> 'cb AssemblyEngine \<Rightarrow> 'cb AssemblyEngine" where
  "addLoop registry clock k [] this = this"
| "addLoop registry clock k (component # rest) this =
     (if \<not> has registry (ctype component) then addLoop registry clock (Suc k) rest this
      else addLoop registry clock (Suc k) rest
             (this\<lparr>activeComponents := AList.update (cid component)
                 (mountingState component (mountClock clock k)) (activeComponents this)\<rparr>))"

text \<open>The body of the final \<open>components.forEach\<close>.\<close>

definition markMounted :: "ComponentInstance \<Rightarrow> 'cb AssemblyEngine \<Rightarrow> 'cb AssemblyEngine" where
  "markMounted component this =
     (case map_of (activeComponents this) (cid component) of
        None \<Rightarrow> this
      | Some state \<Rightarrow> this\<lparr>activeComponents :=
          AList.update (cid component) (state\<lparr>status := Mounted\<rparr>) (activeComponents this)\<rparr>)"

text \<open>
  The promises handed to \<open>Promise.all\<close>: one per accepted component when an animation
  configuration is given, none otherwise.
\<close>

definition enterAnimationsResolve :: "'c ComponentRegistry \<Rightarrow> AnimationOrchestrator
    \<Rightarrow> ComponentInstance list \<Rightarrow> AnimationConfig option \<Rightarrow> bool" where
  "enterAnimationsResolve registry orch comps animationConfig =
     (case animationConfig of
        None \<Rightarrow> True
      | Some cfg \<Rightarrow> list_all (\<lambda>c. animateIn orch (cid c) cfg (animationDelay c))
                     (filter (\<lambda>c. has registry (ctype c)) comps))"

text \<open>
  The result of an operation is the exception it throws, if any, and the engine as the
  operation leaves it: nothing is rolled back on a rejection.
\<close>

definition addComponents :: "'c ComponentRegistry \<Rightarrow> AnimationOrchestrator \<Rightarrow> EngineClock
    \<Rightarrow> ComponentInstance list \<Rightarrow> AnimationConfig option \<Rightarrow> 'cb AssemblyEngine
    \<Rightarrow> error option \<times> 'cb AssemblyEngine" where
  "addComponents registry orch clock comps animationConfig this =
     (let this1 = addLoop registry clock 0 comps this in
      if enterAnimationsResolve registry orch comps animationConfig
      then (None, fold markMounted comps this1)
      else (Some AnimationRejected, this1))"

subsection \<open>removeComponents\<close>

definition markUnmounting :: "string \<Rightarrow> 'cb AssemblyEngine \<Rightarrow> 'cb AssemblyEngine" where
  "markUnmounting i this =
     (case map_of (activeComponents this) i of
        None \<Rightarrow> this
      | Some component \<Rightarrow> this\<lparr>activeComponents :=
          AList.update i (component\<lparr>status := Unmounting\<rparr>) (activeComponents this)\<rparr>)"

definition deleteComponent :: "string \<Rightarrow> 'cb AssemblyEngine \<Rightarrow> 'cb AssemblyEngine" where
  "deleteComponent i this = this\<lparr>activeComponents := AList.delete i (activeComponents this)\<rparr>"

text \<open>
  The \<open>for\<close> loop of \<open>removeComponents\<close>. With an animation configuration the delete
  is deferred to the exit animation and the id joins the scheduled ones; without one the
  component is deleted at once.
\<close>

fun removeLoop :: "AnimationConfig option \<Rightarrow> string list \<Rightarrow> 'cb AssemblyEngine \<times> string list
    \<Rightarrow> 'cb AssemblyEngine \<times> string list" where
  "removeLoop animationConfig [] st = st"
| "removeLoop animationConfig (i # rest) (this, scheduled) =
     (case map_of (activeComponents this) i of
        None \<Rightarrow> removeLoop animationConfig rest (this, scheduled)
      | Some component \<Rightarrow>
          (case animationConfig of
             Some cfg \<Rightarrow> removeLoop animationConfig rest (markUnmounting i this, scheduled @ [i])
           | None \<Rightarrow> removeLoop animationConfig rest
                       (deleteComponent i (markUnmounting i this), scheduled)))"

text \<open>
  After the loop every scheduled exit animation settles; the \<open>then\<close> of each one that
  resolves deletes its id, and \<open>Promise.all\<close> rejects if one of them rejects.
\<close>

definition removeComponents :: "AnimationOrchestrator \<Rightarrow> string list \<Rightarrow> AnimationConfig option
    \<Rightarrow> 'cb AssemblyEngine \<Rightarrow> error option \<times> 'cb AssemblyEngine" where
  "removeComponents orch componentIds animationConfig this =
     (case removeLoop animationConfig componentIds (this, []) of
        (this1, scheduled) \<Rightarrow>
          (case animationConfig of
             None \<Rightarrow> (None, this1)
           | Some cfg \<Rightarrow>
               (if list_all (\<lambda>i. animateOut orch i cfg) scheduled then None
                else Some AnimationRejected,
                fold deleteComponent (filter (\<lambda>i. animateOut orch i cfg) scheduled) this1)))"

subsection \<open>updateComponents\<close>

text \<open>\<open>{ ...component.position, ...update.position }\<close>\<close>

definition position_spread :: "Position \<Rightarrow> PartialPosition \<Rightarrow> Position" where
  "position_spread p u =
     \<lparr>area = (case p_area u of None \<Rightarrow> area p | Some x \<Rightarrow> x),
      order = (case p_order u of None \<Rightarrow> order p | Some x \<Rightarrow> x),
      width = or_else (p_width u) (width p),
      maxWidth = or_else (p_maxWidth u) (maxWidth p),
      gridColumn = or_else (p_gridColumn u) (gridColumn p),
      gridRow = or_else (p_gridRow u) (gridRow p)\<rparr>"

text \<open>What one update record makes of the component it names.\<close>

definition updatedComponent :: "ComponentUpdate \<Rightarrow> ComponentState \<Rightarrow> ComponentState" where
  "updatedComponent update component =
     (let c1 = component\<lparr>props := obj_spread (props component)
                  (case u_props update of None \<Rightarrow> [] | Some p \<Rightarrow> p)\<rparr>
      in case u_position update of
           None \<Rightarrow> c1
         | Some p \<Rightarrow> c1\<lparr>position := position_spread (position c1) p\<rparr>)"

text \<open>The body of the \<open>for\<close> loop of \<open>updateComponents\<close>.\<close>

definition applyUpdate :: "ComponentUpdate \<Rightarrow> 'cb AssemblyEngine \<Rightarrow> 'cb AssemblyEngine" where
  "applyUpdate update this =
     (case map_of (activeComponents this) (u_id update) of
        None \<Rightarrow> this
      | Some component \<Rightarrow> this\<lparr>activeComponents :=
          AList.update (u_id update) (updatedComponent update component) (activeComponents this)\<rparr>)"

definition updateComponents :: "ComponentUpdate list \<Rightarrow> 'cb AssemblyEngine
    \<Rightarrow> error option \<times> 'cb AssemblyEngine" where
  "updateComponents updates this = (None, fold applyUpdate updates this)"

subsection \<open>reorganizeLayout\<close>

text \<open>The body of \<open>positions.forEach\<close>.\<close>

definition assignPosition :: "string \<times> Position \<Rightarrow> 'cb AssemblyEngine \<Rightarrow> 'cb AssemblyEngine" where
  "assignPosition entry this =
     (case entry of (componentId, p) \<Rightarrow>
        (case map_of (activeComponents this) componentId of
           None \<Rightarrow> this
         | Some component \<Rightarrow> this\<lparr>activeComponents :=
             AList.update componentId (component\<lparr>position := p\<rparr>) (activeComponents this)\<rparr>))"

definition reorganizeLayout :: "AnimationOrchestrator \<Rightarrow> string option \<Rightarrow> 'cb AssemblyEngine
    \<Rightarrow> error option \<times> 'cb AssemblyEngine" where
  "reorganizeLayout orch newLayout this =
     (case calculatePositions (layoutEngine this) (map snd (activeComponents this)) newLayout of
        (positions, le) \<Rightarrow>
          (let this1 = fold assignPosition positions (this\<lparr>layoutEngine := le\<rparr>) in
           (if animateLayoutChange orch (map fst (activeComponents this1)) then None
            else Some AnimationRejected,
            this1)))"

subsection \<open>getState, onUpdate, notifyUpdate, processInstruction\<close>

definition getState :: "EngineClock \<Rightarrow> 'cb AssemblyEngine \<Rightarrow> AssemblyState" where
  "getState clock this =
     \<lparr>s_components = map snd (activeComponents this),
      s_layout = getCurrentLayout (layoutEngine this),
      s_timestamp = snapshotClock clock\<rparr>"

definition onUpdate :: "'cb \<Rightarrow> 'cb AssemblyEngine \<Rightarrow> 'cb AssemblyEngine" where
  "onUpdate callback this = this\<lparr>updateCallback := Some callback\<rparr>"

text \<open>The calls made to subscriber callbacks: which callback, with which snapshot.\<close>

definition notifyUpdate :: "EngineClock \<Rightarrow> 'cb AssemblyEngine \<Rightarrow> ('cb \<times> AssemblyState) list" where
  "notifyUpdate clock this =
     (case updateCallback this of
        None \<Rightarrow> []
      | Some callback \<Rightarrow> [(callback, getState clock this)])"

record 'cb Processed =
  thrown :: "error option"
  engine :: "'cb AssemblyEngine"
  delivered :: "('cb \<times> AssemblyState) list"

text \<open>
  The \<open>switch\<close> of \<open>processInstruction\<close>. Iterating a missing array
  (\<open>for (const x of undefined)\<close>) throws a TypeError before anything is changed.
\<close>

definition dispatch :: "'c ComponentRegistry \<Rightarrow> AnimationOrchestrator \<Rightarrow> EngineClock
    \<Rightarrow> EngineInstruction \<Rightarrow> 'cb AssemblyEngine \<Rightarrow> error option \<times> 'cb AssemblyEngine" where
  "dispatch registry orch clock instr this =
     (if e_action instr = ''add'' then
        (case e_components instr of
           None \<Rightarrow> (Some TypeError, this)
         | Some comps \<Rightarrow> addComponents registry orch clock comps (e_animation instr) this)
      else if e_action instr = ''remove'' then
        (case e_componentIds instr of
           None \<Rightarrow> (Some TypeError, this)
         | Some ids \<Rightarrow> removeComponents orch ids (e_animation instr) this)
      else if e_action instr = ''update'' then
        (case e_updates instr of
           None \<Rightarrow> (Some TypeError, this)
         | Some updates \<Rightarrow> updateComponents updates this)
      else if e_action instr = ''reorganize'' then
        reorganizeLayout orch (e_layout instr) this
      else (None, this))"

text \<open>An exception is rethrown before \<open>notifyUpdate\<close> is reached.\<close>

definition processInstruction :: "'c ComponentRegistry \<Rightarrow> AnimationOrchestrator \<Rightarrow> EngineClock
    \<Rightarrow> EngineInstruction \<Rightarrow> 'cb AssemblyEngine \<Rightarrow> 'cb Processed" where
  "processInstruction registry orch clock instr this =
     (case dispatch registry orch clock instr this of
        (Some e, this1) \<Rightarrow> \<lparr>thrown = Some e, engine = this1, delivered = []\<rparr>
      | (None, this1) \<Rightarrow> \<lparr>thrown = None, engine = this1, delivered = notifyUpdate clock this1\<rparr>)"

text \<open>\<open>clear\<close> removes every active component with a fade-out.\<close>

definition clear :: "AnimationOrchestrator \<Rightarrow> 'cb AssemblyEngine
    \<Rightarrow> error option \<times> 'cb AssemblyEngine" where
  "clear orch this =
     removeComponents orch (map fst (activeComponents this))
       (Some (anim (Some ''fadeOut'') (Some ''fadeOut'') (Some 0.3) None)) this"

section \<open>Notions used to state the properties\<close>

subsection \<open>Merging rules\<close>





subsection \<open>Two-column layout\<close>

text \<open>
  The position the two-column layout is expected to give the component at index \<open>i\<close>:
  its area by its type, its order the number of components of that area before it.
\<close>

definition twoColumnExpected :: "ComponentState list \<Rightarrow> nat \<Rightarrow> Position" where
  "twoColumnExpected comps i =
     (if ctype (comps ! i) \<in> {''FilterPanel'', ''NavigationPanel''}
      then sidebarPosition (length (filter isSidebarType (take i comps)))
      else mainPosition (length (filter (\<lambda>c. \<not> isSidebarType c) (take i comps))))"

subsection \<open>Reorganization\<close>

text \<open>What the layout engine reads of a component: its id and its type.\<close>

definition sig :: "ComponentState \<Rightarrow> string \<times> string" where
  "sig c = (cid c, ctype c)"

subsection \<open>The lifecycle\<close>



















section \<open>Sample inputs\<close>


definition unknownIntent :: IntentAnalysis where
  "unknownIntent =
     \<lparr>intent = \<lparr>itype = ''unknown'', confidence = 0.5, originalMessage = ''hm''\<rparr>,
      entities = [], context = [(''urgency'', JStr ''medium'')],
      suggestedResponse = [], uiHints = [], timestamp = []\<rparr>"

definition env0 :: MapperEnv where
  "env0 = \<lparr>idSuffix = (\<lambda>k. ''0''), helpStamp = ''0''\<rparr>"



text \<open>
  A registry, an engine with two mounted components, an animation executor whose promises
  all resolve, a clock, and instructions for them.
\<close>

definition md1 :: ComponentMetadata where
  "md1 = \<lparr>category = ''display'', description = ''first'', requiredProps = None, optionalProps = None\<rparr>"

definition sampleRegistry :: "nat ComponentRegistry" where
  "sampleRegistry = registryAfter [(''ProductGrid'', 1, None), (''FilterPanel'', 2, None)]"

definition gridState :: ComponentState where
  "gridState =
     \<lparr>cid = ''grid-1'', ctype = ''ProductGrid'', props = [(''initialProducts'', JNum 12)],
      position = pos ''main'' 0, animationDelay = Some 0,
      status = Mounted, mountedAt = 100\<rparr>"

definition filterState :: ComponentState where
  "filterState =
     \<lparr>cid = ''filter-1'', ctype = ''FilterPanel'', props = [(''position'', JStr ''sidebar'')],
      position = pos ''sidebar'' 0, animationDelay = Some 0.1,
      status = Mounted, mountedAt = 101\<rparr>"

definition navState :: ComponentState where
  "navState =
     \<lparr>cid = ''nav-1'', ctype = ''NavigationPanel'', props = [],
      position = pos ''main'' 2, animationDelay = Some 0.2,
      status = Mounted, mountedAt = 102\<rparr>"

definition sampleEngine :: "nat AssemblyEngine" where
  "sampleEngine =
     \<lparr>activeComponents = [(''grid-1'', gridState), (''filter-1'', filterState)],
      layoutEngine = \<lparr>currentLayout = Some ''default''\<rparr>,
      updateCallback = None\<rparr>"


definition allResolve :: AnimationOrchestrator where
  "allResolve = \<lparr>animateIn = (\<lambda>i cfg d. True), animateOut = (\<lambda>i cfg. True),
     animateLayoutChange = (\<lambda>ids. True)\<rparr>"

definition clock0 :: EngineClock where
  "clock0 = \<lparr>mountClock = (\<lambda>k. 100 + k), snapshotClock = 200\<rparr>"



definition removeInstr :: EngineInstruction where
  "removeInstr = \<lparr>e_action = ''remove'', e_components = None, e_componentIds = Some [],
     e_updates = None, e_layout = None, e_animation = None\<rparr>"




definition sampleUpdate :: ComponentUpdate where
  "sampleUpdate =
     \<lparr>u_id = ''grid-1'', u_props = Some [(''sortBy'', JStr ''price'')],
      u_position = Some \<lparr>p_area = None, p_order = Some 3, p_width = None, p_maxWidth = None,
        p_gridColumn = None, p_gridRow = None\<rparr>\<rparr>"

definition updateInstr :: EngineInstruction where
  "updateInstr = \<lparr>e_action = ''update'', e_components = None, e_componentIds = None,
     e_updates = Some [sampleUpdate], e_layout = None, e_animation = None\<rparr>"

definition reorganizeInstr :: EngineInstruction where
  "reorganizeInstr = \<lparr>e_action = ''reorganize'', e_components = None, e_componentIds = None,
     e_updates = None, e_layout = Some ''two-column'', e_animation = None\<rparr>"

section \<open>The intent mapper\<close>

subsection \<open>Conditions of the rules\<close>

lemma evaluateRule_simps:
  "evaluateRule greeting_rule a = (itype (intent a) = ''greeting'' \<and> confidence (intent a) > 0.7)"
  "evaluateRule browse_rule a = (itype (intent a) = ''product_browse'' \<and> confidence (intent a) > 0.6)"
  "evaluateRule detail_rule a = (itype (intent a) = ''product_detail'' \<and> truthy (obj_get (entities a) ''productId''))"
  "evaluateRule style_advice_rule a = (itype (intent a) = ''style_advice'')"
  "evaluateRule store_visit_rule a = (itype (intent a) = ''store_visit'')"
  "evaluateRule urgency_modifier a = (obj_get (context a) ''urgency'' = JStr ''high'' \<and> confidence (intent a) > 0.8)"
  by (simp_all add: evaluateRule_def greeting_rule_def browse_rule_def detail_rule_def
      style_advice_rule_def store_visit_rule_def urgency_modifier_def add_rule_def)

subsection \<open>The product of a length and 0.1\<close>

lemma shift53_upper: "N < 2 ^ (53 + shift53 N)"
proof (induction N rule: shift53.induct)
  case (1 N)
  show ?case
  proof (cases "N < 2 ^ 53")
    case True
    then show ?thesis by (simp add: shift53.simps)
  next
    case False
    then have s: "shift53 N = Suc (shift53 (N div 2))" by (subst shift53.simps) simp
    have "N div 2 < 2 ^ (53 + shift53 (N div 2))" using 1 False by simp
    then have "N < 2 * 2 ^ (53 + shift53 (N div 2))" by linarith
    moreover have "(2::nat) ^ (53 + Suc (shift53 (N div 2))) = 2 * 2 ^ (53 + shift53 (N div 2))"
      by (simp only: add_Suc_right power_Suc)
    ultimately show ?thesis by (simp only: s)
  qed
qed










subsection \<open>Adding the components of a rule\<close>

lemma push_component_fst: "fst (push_component a env d st) = Suc (fst st)"
  by (simp add: push_component_def split: prod.splits)

lemma push_component_comps:
  "i_components (snd (push_component a env d st)) =
     i_components (snd st) @
       [\<lparr>cid = d_type d @ ''-'' @ idSuffix env (fst st), ctype = d_type d,
         props = (case d_props d of Static p \<Rightarrow> p | Derived f \<Rightarrow> f a),
         position = d_position d,
         animationDelay = Some (times_tenth (length (i_components (snd st))))\<rparr>]"
  by (simp add: push_component_def split: prod.splits)





lemma fold_push_types:
  "map ctype (i_components (snd (fold (push_component a env) ds st))) =
     map ctype (i_components (snd st)) @ map d_type ds"
  by (induction ds arbitrary: st) (simp_all add: push_component_comps)





subsection \<open>No rule matches\<close>

text \<open>
  Claim C5. When no mapping rule matches the analysis, \<open>mapToUIInstructions\<close>
  returns the default instruction: the single \<open>HelpPanel\<close> component, layout
  \<open>centered\<close>, animation \<open>fadeIn\<close>/\<open>fadeOut\<close> of duration 0.3. Its component
  list is not empty.
\<close>

theorem mapToUIInstructions_fallback:
  assumes "\<forall>rule \<in> set (mappingRules this). \<not> evaluateRule rule analysis"
  shows "mapToUIInstructions this env analysis = getDefaultInstruction env
       \<and> map ctype (i_components (mapToUIInstructions this env analysis)) = [''HelpPanel'']
       \<and> i_layout (mapToUIInstructions this env analysis) = ''centered''
       \<and> i_animation (mapToUIInstructions this env analysis)
           = anim (Some ''fadeIn'') (Some ''fadeOut'') (Some 0.3) None
       \<and> i_components (mapToUIInstructions this env analysis) \<noteq> []"
proof -
  from assms have "filter (\<lambda>rule. evaluateRule rule analysis) (mappingRules this) = []"
    by (simp add: filter_empty_conv)
  then have "mapToUIInstructions this env analysis = getDefaultInstruction env"
    by (simp add: mapToUIInstructions_def)
  then show ?thesis
    by (simp add: getDefaultInstruction_def)
qed

theorem mapToUIInstructions_fallback_witness:
  "filter (\<lambda>rule. evaluateRule rule unknownIntent) (mappingRules newIntentMapper) = []
   \<and> map ctype (i_components (mapToUIInstructions newIntentMapper env0 unknownIntent)) = [''HelpPanel'']
   \<and> i_layout (mapToUIInstructions newIntentMapper env0 unknownIntent) = ''centered''"
proof -
  have h: "\<forall>rule \<in> set (mappingRules newIntentMapper). \<not> evaluateRule rule unknownIntent"
    by (simp add: newIntentMapper_def initializeMappingRules_def evaluateRule_simps
        unknownIntent_def obj_get_def)
  from h have e: "filter (\<lambda>rule. evaluateRule rule unknownIntent) (mappingRules newIntentMapper) = []"
    by (simp add: filter_empty_conv)
  show ?thesis
    using e mapToUIInstructions_fallback [OF h, of env0] by blast
qed

subsection \<open>Scenario B\<close>




lemma merge_browse_layout:
  "i_layout (snd (merge_rule a env browse_rule st)) = ''two-column''"
  by (simp add: merge_rule_def browse_rule_def add_rule_def Let_def)






subsection \<open>Several Add rules\<close>





section \<open>The component registry\<close>

lemma registryAfter_snoc:
  "registryAfter (calls @ [(name, component, md)]) = register name component md (registryAfter calls)"
  by (simp add: registryAfter_def)

lemma register_components:
  "components (register name component md this) = AList.update name component (components this)"
  by (simp add: register_def Let_def split: option.splits)

lemma register_metadata:
  "metadata (register name component md this) =
     (case md of None \<Rightarrow> metadata this | Some m \<Rightarrow> AList.update name m (metadata this))"
  by (simp add: register_def Let_def split: option.splits)

lemma distinct_registryAfter: "distinct (getComponentNames (registryAfter calls))"
proof (induction calls rule: rev_induct)
  case Nil
  show ?case by (simp add: registryAfter_def emptyRegistry_def getComponentNames_def)
next
  case (snoc call calls)
  obtain name component md where c: "call = (name, component, md)"
    by (cases call) auto
  from snoc show ?case
    by (simp add: c registryAfter_snoc getComponentNames_def register_components distinct_update)
qed

lemma count_list_distinct:
  "distinct xs \<Longrightarrow> count_list xs x = (if x \<in> set xs then 1 else 0)"
  by (induction xs) auto

text \<open>
  Claim C3, as the code has it. After \<open>register(name, component, metadata?)\<close> on a
  registry reached by any history of registrations, \<open>name\<close> is bound to the new
  component and occurs exactly once among the registered names. Its metadata is the one
  given with the call when there is one; when the call carries none, the metadata stored
  for \<open>name\<close> before the call is kept. The bindings and metadata of every other name
  are unchanged.
\<close>

theorem register_rebinds:
  "get (register name component md (registryAfter calls)) name = Some component
   \<and> count_list (getComponentNames (register name component md (registryAfter calls))) name = 1
   \<and> getMetadata (register name component md (registryAfter calls)) name
       = (case md of Some m \<Rightarrow> Some m | None \<Rightarrow> getMetadata (registryAfter calls) name)
   \<and> (\<forall>other. other \<noteq> name \<longrightarrow>
        get (register name component md (registryAfter calls)) other
          = get (registryAfter calls) other
      \<and> getMetadata (register name component md (registryAfter calls)) other
          = getMetadata (registryAfter calls) other)"
proof -
  let ?r = "registryAfter calls"
  let ?r' = "register name component md ?r"
  have d: "distinct (getComponentNames ?r')"
    using distinct_registryAfter [of "calls @ [(name, component, md)]"]
    by (simp add: registryAfter_snoc)
  have m: "name \<in> set (getComponentNames ?r')"
    by (simp add: getComponentNames_def register_components dom_update)
  have c1: "get ?r' name = Some component"
    by (simp add: get_def register_components update_conv')
  have c2: "count_list (getComponentNames ?r') name = 1"
    using d m by (simp add: count_list_distinct)
  have c3: "getMetadata ?r' name = (case md of Some m \<Rightarrow> Some m | None \<Rightarrow> getMetadata ?r name)"
    by (simp add: getMetadata_def register_metadata update_conv' split: option.splits)
  have c4: "\<forall>other. other \<noteq> name \<longrightarrow> get ?r' other = get ?r other
              \<and> getMetadata ?r' other = getMetadata ?r other"
    by (simp add: get_def getMetadata_def register_components register_metadata update_conv'
        split: option.splits)
  from c1 c2 c3 c4 show ?thesis by blast
qed

theorem register_rebinds_witness:
  "''B'' \<noteq> ''A''
   \<and> get (register ''A'' (2::nat) None (registryAfter [(''A'', 1, Some md1), (''B'', 3, None)])) ''A'' = Some 2
   \<and> getMetadata (register ''A'' (2::nat) None (registryAfter [(''A'', 1, Some md1), (''B'', 3, None)])) ''A''
       = Some md1
   \<and> get (register ''A'' (2::nat) None (registryAfter [(''A'', 1, Some md1), (''B'', 3, None)])) ''B'' = Some 3"
  using register_rebinds [of "''A''" "2::nat" None "[(''A'', 1, Some md1), (''B'', 3, None)]"]
  by (simp add: registryAfter_def register_def emptyRegistry_def get_def getMetadata_def Let_def)

text \<open>
  Claim C3 as stated fails: re-registering a name without metadata leaves the metadata
  of the prior binding paired with the new component.
\<close>

theorem register_stale_metadata_counterexample:
  "get (register ''A'' (2::nat) None (register ''A'' 1 (Some md1) emptyRegistry)) ''A'' = Some 2
   \<and> getMetadata (register ''A'' (2::nat) None (register ''A'' 1 (Some md1) emptyRegistry)) ''A''
       = Some md1"
  by (simp add: register_def emptyRegistry_def get_def getMetadata_def Let_def)

section \<open>The assembly engine\<close>

subsection \<open>The subscriber\<close>

text \<open>
  No operation touches the callback.
\<close>

lemma addLoop_callback [simp]:
  "updateCallback (addLoop registry clock k comps this) = updateCallback this"
  by (induction comps arbitrary: k this) simp_all

lemma markMounted_callback [simp]: "updateCallback (markMounted c this) = updateCallback this"
  by (simp add: markMounted_def split: option.splits)

lemma fold_markMounted_callback [simp]:
  "updateCallback (fold markMounted comps this) = updateCallback this"
  by (induction comps arbitrary: this) simp_all

lemma markUnmounting_callback [simp]: "updateCallback (markUnmounting i this) = updateCallback this"
  by (simp add: markUnmounting_def split: option.splits)

lemma deleteComponent_callback [simp]: "updateCallback (deleteComponent i this) = updateCallback this"
  by (simp add: deleteComponent_def)

lemma fold_deleteComponent_callback [simp]:
  "updateCallback (fold deleteComponent ids this) = updateCallback this"
  by (induction ids arbitrary: this) simp_all

lemma removeLoop_callback [simp]:
  "updateCallback (fst (removeLoop cfg ids (this, sch))) = updateCallback this"
  by (induction ids arbitrary: this sch) (auto split: option.splits)

lemma applyUpdate_callback [simp]: "updateCallback (applyUpdate u this) = updateCallback this"
  by (simp add: applyUpdate_def split: option.splits)

lemma fold_applyUpdate_callback [simp]:
  "updateCallback (fold applyUpdate us this) = updateCallback this"
  by (induction us arbitrary: this) simp_all

lemma assignPosition_callback [simp]: "updateCallback (assignPosition e this) = updateCallback this"
  by (simp add: assignPosition_def split: option.splits prod.splits)

lemma fold_assignPosition_callback [simp]:
  "updateCallback (fold assignPosition ps this) = updateCallback this"
  by (induction ps arbitrary: this) simp_all

lemma addComponents_callback [simp]:
  "updateCallback (snd (addComponents registry orch clock comps cfg this)) = updateCallback this"
  by (simp add: addComponents_def Let_def)

lemma removeComponents_callback [simp]:
  "updateCallback (snd (removeComponents orch ids cfg this)) = updateCallback this"
proof (cases "removeLoop cfg ids (this, [])")
  case (Pair this1 scheduled)
  have "updateCallback this1 = updateCallback this"
    using removeLoop_callback [of cfg ids this "[]"] Pair by simp
  with Pair show ?thesis
    by (simp add: removeComponents_def split: option.splits)
qed

lemma updateComponents_callback [simp]:
  "updateCallback (snd (updateComponents us this)) = updateCallback this"
  by (simp add: updateComponents_def)

lemma reorganizeLayout_callback [simp]:
  "updateCallback (snd (reorganizeLayout orch l this)) = updateCallback this"
  by (simp add: reorganizeLayout_def calculatePositions_def Let_def)

lemma dispatch_callback:
  "updateCallback (snd (dispatch registry orch clock instr this)) = updateCallback this"
  by (simp add: dispatch_def split: option.splits)

lemma processInstruction_thrown:
  "thrown (processInstruction registry orch clock instr this)
     = fst (dispatch registry orch clock instr this)"
  by (simp add: processInstruction_def split: prod.splits option.splits)

lemma processInstruction_engine:
  "engine (processInstruction registry orch clock instr this)
     = snd (dispatch registry orch clock instr this)"
  by (simp add: processInstruction_def split: prod.splits option.splits)

lemma processInstruction_delivered:
  "delivered (processInstruction registry orch clock instr this)
     = (case fst (dispatch registry orch clock instr this) of
          Some e \<Rightarrow> []
        | None \<Rightarrow> notifyUpdate clock (snd (dispatch registry orch clock instr this)))"
  by (simp add: processInstruction_def split: prod.splits option.splits)

text \<open>
  Claim C9. \<open>onUpdate(f)\<close> followed by \<open>onUpdate(g)\<close> leaves the engine as
  \<open>onUpdate(g)\<close> alone does. An instruction processed afterwards without an exception
  makes exactly one delivery, to \<open>g\<close>, of the state snapshot of the engine as the
  instruction left it; an engine with no callback delivers nothing.
\<close>

theorem single_subscriber:
  "onUpdate g (onUpdate f this) = onUpdate g this
   \<and> (thrown (processInstruction registry orch clock instr (onUpdate g (onUpdate f this))) = None
        \<longrightarrow> delivered (processInstruction registry orch clock instr (onUpdate g (onUpdate f this)))
             = [(g, getState clock
                  (engine (processInstruction registry orch clock instr (onUpdate g (onUpdate f this)))))])
   \<and> (updateCallback this = None
        \<longrightarrow> delivered (processInstruction registry orch clock instr this) = [])"
proof -
  have a: "onUpdate g (onUpdate f this) = onUpdate g this"
    by (simp add: onUpdate_def)
  have cb: "updateCallback (snd (dispatch registry orch clock instr (onUpdate g this))) = Some g"
    by (simp add: dispatch_callback onUpdate_def)
  have b: "thrown (processInstruction registry orch clock instr (onUpdate g this)) = None
        \<longrightarrow> delivered (processInstruction registry orch clock instr (onUpdate g this))
             = [(g, getState clock (engine (processInstruction registry orch clock instr (onUpdate g this))))]"
    using cb
    by (simp add: processInstruction_thrown processInstruction_engine processInstruction_delivered
        notifyUpdate_def)
  have c: "updateCallback this = None
        \<longrightarrow> delivered (processInstruction registry orch clock instr this) = []"
    using dispatch_callback [of registry orch clock instr this]
    by (simp add: processInstruction_delivered notifyUpdate_def split: option.splits)
  from a b c show ?thesis by simp
qed

theorem single_subscriber_witness:
  "thrown (processInstruction sampleRegistry allResolve clock0 updateInstr
       (onUpdate (2::nat) (onUpdate 1 sampleEngine))) = None
   \<and> delivered (processInstruction sampleRegistry allResolve clock0 updateInstr
       (onUpdate (2::nat) (onUpdate 1 sampleEngine)))
       = [(2, getState clock0 (engine (processInstruction sampleRegistry allResolve clock0 updateInstr
            (onUpdate (2::nat) (onUpdate 1 sampleEngine)))))]
   \<and> updateCallback (newAssemblyEngine :: nat AssemblyEngine) = None
   \<and> delivered (processInstruction sampleRegistry allResolve clock0 updateInstr
        (newAssemblyEngine :: nat AssemblyEngine)) = []"
proof -
  have t: "thrown (processInstruction sampleRegistry allResolve clock0 updateInstr
       (onUpdate (2::nat) (onUpdate 1 sampleEngine))) = None"
    by (simp add: processInstruction_thrown dispatch_def updateInstr_def updateComponents_def)
  have n: "updateCallback (newAssemblyEngine :: nat AssemblyEngine) = None"
    by (simp add: newAssemblyEngine_def)
  show ?thesis
    using t n
      single_subscriber [of 2 1 sampleEngine sampleRegistry allResolve clock0 updateInstr]
      single_subscriber [of 2 1 newAssemblyEngine sampleRegistry allResolve clock0 updateInstr]
    by blast
qed

subsection \<open>Update\<close>

lemma update_present_length:
  "map_of al k = Some v \<Longrightarrow> length (AList.update k v' al) = length al"
  by (induction al) (auto split: if_splits)

lemma update_present_keys:
  "map_of al k = Some v \<Longrightarrow> map fst (AList.update k v' al) = map fst al"
  by (induction al) (auto split: if_splits)

lemma update_present_nth:
  "map_of al k = Some v \<Longrightarrow> i < length al \<Longrightarrow> fst (al ! i) \<noteq> k
     \<Longrightarrow> AList.update k v' al ! i = al ! i"
proof (induction al arbitrary: i)
  case Nil
  then show ?case by simp
next
  case (Cons a al)
  then show ?case
    by (cases i) (auto split: if_splits)
qed

lemma map_of_obj_set: "map_of (obj_set k v a) = (map_of a)(k \<mapsto> v)"
  by (simp add: obj_set_def update_conv')

lemma map_add_upd_left: "(m(k \<mapsto> v)) ++ n = m ++ ([k \<mapsto> v] ++ n)"
  by (auto simp: map_add_def fun_eq_iff split: option.splits)

lemma map_of_obj_spread: "map_of (obj_spread a b) = map_of a ++ map_of (rev b)"
proof -
  have "map_of (fold (\<lambda>(k, v). obj_set k v) b a) = map_of a ++ map_of (rev b)" for a
  proof (induction b arbitrary: a)
    case Nil
    show ?case by simp
  next
    case (Cons x xs)
    obtain k v where x: "x = (k, v)" by (cases x) auto
    have "fold (\<lambda>(k, v). obj_set k v) (x # xs) a
        = fold (\<lambda>(k, v). obj_set k v) xs (obj_set k v a)"
      by (simp add: x)
    then have "map_of (fold (\<lambda>(k, v). obj_set k v) (x # xs) a)
        = map_of (obj_set k v a) ++ map_of (rev xs)"
      by (simp only: Cons.IH)
    also have "\<dots> = (map_of a)(k \<mapsto> v) ++ map_of (rev xs)"
      by (simp only: map_of_obj_set)
    also have "\<dots> = map_of a ++ ([k \<mapsto> v] ++ map_of (rev xs))"
      by (rule map_add_upd_left)
    also have "[k \<mapsto> v] ++ map_of (rev xs) = map_of (rev (x # xs))"
      by (simp add: x)
    finally show ?case .
  qed
  then show ?thesis by (simp add: obj_spread_def)
qed

lemma updatedComponent_fields:
  "cid (updatedComponent u c) = cid c"
  "ctype (updatedComponent u c) = ctype c"
  "status (updatedComponent u c) = status c"
  "mountedAt (updatedComponent u c) = mountedAt c"
  "animationDelay (updatedComponent u c) = animationDelay c"
  "props (updatedComponent u c) = obj_spread (props c) (case u_props u of None \<Rightarrow> [] | Some p \<Rightarrow> p)"
  "position (updatedComponent u c) =
     (case u_position u of None \<Rightarrow> position c | Some p \<Rightarrow> position_spread (position c) p)"
  by (simp_all add: updatedComponent_def Let_def split: option.splits)

text \<open>
  Claim C10. An update record naming an active id replaces that component's props by
  the shallow merge with the update's props and, when the update carries a position,
  its position by the field-wise merge; its id, type, status, mountedAt and
  animationDelay stay as they were. The sequence of active ids is the same, every entry
  under another id is the same, and so are the layout engine and the callback.
\<close>

theorem applyUpdate_frame:
  assumes "map_of (activeComponents this) (u_id update) = Some component"
  shows "map_of (activeComponents (applyUpdate update this)) (u_id update)
           = Some (updatedComponent update component)
       \<and> map_of (props (updatedComponent update component))
           = map_of (props component) ++ map_of (rev (case u_props update of None \<Rightarrow> [] | Some p \<Rightarrow> p))
       \<and> position (updatedComponent update component)
           = (case u_position update of None \<Rightarrow> position component
              | Some p \<Rightarrow> position_spread (position component) p)
       \<and> cid (updatedComponent update component) = cid component
       \<and> ctype (updatedComponent update component) = ctype component
       \<and> status (updatedComponent update component) = status component
       \<and> mountedAt (updatedComponent update component) = mountedAt component
       \<and> animationDelay (updatedComponent update component) = animationDelay component
       \<and> map fst (activeComponents (applyUpdate update this)) = map fst (activeComponents this)
       \<and> (\<forall>i < length (activeComponents this).
             fst (activeComponents this ! i) \<noteq> u_id update \<longrightarrow>
             activeComponents (applyUpdate update this) ! i = activeComponents this ! i)
       \<and> layoutEngine (applyUpdate update this) = layoutEngine this
       \<and> updateCallback (applyUpdate update this) = updateCallback this"
proof -
  have ac: "activeComponents (applyUpdate update this)
      = AList.update (u_id update) (updatedComponent update component) (activeComponents this)"
    using assms by (simp add: applyUpdate_def)
  have le: "layoutEngine (applyUpdate update this) = layoutEngine this"
    using assms by (simp add: applyUpdate_def)
  have keys: "map fst (activeComponents (applyUpdate update this)) = map fst (activeComponents this)"
    unfolding ac using assms by (rule update_present_keys)
  have others: "\<forall>i < length (activeComponents this).
             fst (activeComponents this ! i) \<noteq> u_id update \<longrightarrow>
             activeComponents (applyUpdate update this) ! i = activeComponents this ! i"
    unfolding ac using assms by (simp add: update_present_nth)
  have self: "map_of (activeComponents (applyUpdate update this)) (u_id update)
           = Some (updatedComponent update component)"
    unfolding ac by (simp add: update_conv')
  show ?thesis
    using self keys others le
    by (simp add: updatedComponent_fields map_of_obj_spread)
qed

theorem applyUpdate_frame_witness:
  "map_of (activeComponents sampleEngine) (u_id sampleUpdate) = Some gridState
   \<and> status (updatedComponent sampleUpdate gridState) = Mounted
   \<and> map fst (activeComponents (applyUpdate sampleUpdate sampleEngine)) = [''grid-1'', ''filter-1'']
   \<and> activeComponents (applyUpdate sampleUpdate sampleEngine) ! 1 = (''filter-1'', filterState)"
proof -
  have h: "map_of (activeComponents sampleEngine) (u_id sampleUpdate) = Some gridState"
    by (simp add: sampleEngine_def sampleUpdate_def)
  have l: "length (activeComponents sampleEngine) = 2"
    "activeComponents sampleEngine ! 1 = (''filter-1'', filterState)"
    "map fst (activeComponents sampleEngine) = [''grid-1'', ''filter-1'']"
    "u_id sampleUpdate = ''grid-1''"
    "status gridState = Mounted"
    by (simp_all add: sampleEngine_def sampleUpdate_def gridState_def)
  show ?thesis
    using h applyUpdate_frame [OF h] l by simp
qed

subsection \<open>Remove of an id that is not active\<close>

lemma markUnmounting_absent:
  "map_of (activeComponents this) i = None \<Longrightarrow>
   map_of (activeComponents (markUnmounting j this)) i = None"
  by (auto simp: markUnmounting_def update_conv' split: option.splits)

lemma deleteComponent_absent:
  "map_of (activeComponents this) i = None \<Longrightarrow>
   map_of (activeComponents (deleteComponent j this)) i = None"
  by (simp add: deleteComponent_def delete_conv')

lemma removeLoop_skip_absent:
  "map_of (activeComponents this) i = None \<Longrightarrow>
   removeLoop cfg (xs @ i # ys) (this, sch) = removeLoop cfg (xs @ ys) (this, sch)"
proof (induction xs arbitrary: this sch)
  case Nil
  then show ?case by simp
next
  case (Cons x xs)
  show ?case
  proof (cases "map_of (activeComponents this) x")
    case None
    then show ?thesis using Cons by simp
  next
    case (Some c)
    show ?thesis
    proof (cases cfg)
      case None
      have "map_of (activeComponents (deleteComponent x (markUnmounting x this))) i = None"
        using Cons.prems by (simp add: deleteComponent_absent markUnmounting_absent)
      then show ?thesis using Some None Cons.IH by simp
    next
      case (Some cf)
      have "map_of (activeComponents (markUnmounting x this)) i = None"
        using Cons.prems by (simp add: markUnmounting_absent)
      then show ?thesis using \<open>map_of (activeComponents this) x = Some c\<close> Some Cons.IH by simp
    qed
  qed
qed

lemma removeLoop_all_absent:
  "\<forall>i \<in> set ids. map_of (activeComponents this) i = None \<Longrightarrow>
   removeLoop cfg ids (this, sch) = (this, sch)"
  by (induction ids) simp_all

text \<open>
  Claim C8. An id that is not active contributes nothing to a Remove instruction:
  processing the instruction with or without it gives the same outcome (exception,
  engine, deliveries). A Remove instruction naming only such an id throws nothing and
  leaves the engine, the number of active components and the state snapshot as they
  were.
\<close>

theorem remove_absent_noop:
  assumes "\<not> Map_has (activeComponents this) i"
      and "e_action instr = ''remove''"
  shows "processInstruction registry orch clock (instr\<lparr>e_componentIds := Some (xs @ i # ys)\<rparr>) this
           = processInstruction registry orch clock (instr\<lparr>e_componentIds := Some (xs @ ys)\<rparr>) this
       \<and> thrown (processInstruction registry orch clock (instr\<lparr>e_componentIds := Some [i]\<rparr>) this) = None
       \<and> engine (processInstruction registry orch clock (instr\<lparr>e_componentIds := Some [i]\<rparr>) this) = this
       \<and> length (activeComponents
            (engine (processInstruction registry orch clock (instr\<lparr>e_componentIds := Some [i]\<rparr>) this)))
           = length (activeComponents this)
       \<and> getState clock
            (engine (processInstruction registry orch clock (instr\<lparr>e_componentIds := Some [i]\<rparr>) this))
           = getState clock this"
proof -
  from assms(1) have ab: "map_of (activeComponents this) i = None"
    by (simp add: Map_has_def)
  have r: "removeComponents orch (xs @ i # ys) cfg this = removeComponents orch (xs @ ys) cfg this" for cfg
    by (simp add: removeComponents_def removeLoop_skip_absent [OF ab])
  have d: "dispatch registry orch clock (instr\<lparr>e_componentIds := Some (xs @ i # ys)\<rparr>) this
         = dispatch registry orch clock (instr\<lparr>e_componentIds := Some (xs @ ys)\<rparr>) this"
    using assms(2) by (simp add: dispatch_def r)
  have one: "removeComponents orch [i] cfg this = (None, this)" for cfg
    using ab by (simp add: removeComponents_def split: option.splits)
  have d1: "dispatch registry orch clock (instr\<lparr>e_componentIds := Some [i]\<rparr>) this = (None, this)"
    using assms(2) by (simp add: dispatch_def one)
  show ?thesis
    using d d1
    by (simp add: processInstruction_def)
qed

theorem remove_absent_noop_witness:
  "\<not> Map_has (activeComponents sampleEngine) ''ghost''
   \<and> e_action removeInstr = ''remove''
   \<and> engine (processInstruction sampleRegistry allResolve clock0
        (removeInstr\<lparr>e_componentIds := Some [''ghost'']\<rparr>) sampleEngine) = sampleEngine
   \<and> processInstruction sampleRegistry allResolve clock0
        (removeInstr\<lparr>e_componentIds := Some ([''grid-1''] @ ''ghost'' # [])\<rparr>) sampleEngine
     = processInstruction sampleRegistry allResolve clock0
        (removeInstr\<lparr>e_componentIds := Some ([''grid-1''] @ [])\<rparr>) sampleEngine"
proof -
  have h1: "\<not> Map_has (activeComponents sampleEngine) ''ghost''"
    by (simp add: Map_has_def sampleEngine_def)
  have h2: "e_action removeInstr = ''remove''"
    by (simp add: removeInstr_def)
  show ?thesis
    using h1 h2 remove_absent_noop [OF h1 h2, of sampleRegistry allResolve clock0 "[''grid-1'']" "[]"]
    by blast
qed

subsection \<open>The two-column layout\<close>

lemma fold_positions_other:
  "k \<notin> cid ` set xs \<Longrightarrow>
   map_of (fold (\<lambda>(index, component). AList.update (cid component) (f index)) (enumerate n xs) ps) k
     = map_of ps k"
  by (induction xs arbitrary: n ps) (simp_all add: update_conv')

lemma fold_positions_nth:
  "distinct (map cid xs) \<Longrightarrow> j < length xs \<Longrightarrow>
   map_of (fold (\<lambda>(index, component). AList.update (cid component) (f index)) (enumerate n xs) ps)
     (cid (xs ! j)) = Some (f (n + j))"
proof (induction xs arbitrary: n ps j)
  case Nil
  then show ?case by simp
next
  case (Cons x xs)
  show ?case
  proof (cases j)
    case 0
    have "cid x \<notin> cid ` set xs" using Cons.prems(1) by simp
    then show ?thesis
      by (simp add: 0 fold_positions_other update_conv')
  next
    case (Suc j')
    then have "j' < length xs" using Cons.prems(2) by simp
    moreover have "distinct (map cid xs)" using Cons.prems(1) by simp
    ultimately show ?thesis
      using Cons.IH [of j' "Suc n"] by (simp add: Suc)
  qed
qed

lemma setPositions_nth:
  "distinct (map cid xs) \<Longrightarrow> j < length xs \<Longrightarrow>
   map_of (setPositions f xs ps) (cid (xs ! j)) = Some (f j)"
  using fold_positions_nth [of xs j f 0 ps] by (simp add: setPositions_def)

lemma setPositions_other:
  "k \<notin> cid ` set xs \<Longrightarrow> map_of (setPositions f xs ps) k = map_of ps k"
  by (simp add: setPositions_def fold_positions_other)

lemma filter_nth_index:
  assumes "i < length xs" "P (xs ! i)"
  shows "length (filter P (take i xs)) < length (filter P xs)
       \<and> filter P xs ! length (filter P (take i xs)) = xs ! i"
proof -
  have "xs = take i xs @ xs ! i # drop (Suc i) xs"
    using assms(1) by (simp add: id_take_nth_drop)
  then have "filter P xs = filter P (take i xs) @ xs ! i # filter P (drop (Suc i) xs)"
    using assms(2) by (metis filter.simps(2) filter_append)
  then show ?thesis
    by (simp add: nth_append)
qed

lemma filter_take_mono:
  assumes "i < j" "j \<le> length xs" "P (xs ! i)"
  shows "length (filter P (take i xs)) < length (filter P (take j xs))"
proof -
  have "i < length (take j xs)" using assms by simp
  moreover have "P (take j xs ! i)" using assms by simp
  ultimately have "length (filter P (take i (take j xs))) < length (filter P (take j xs))"
    using filter_nth_index [of i "take j xs" P] by blast
  moreover have "take i (take j xs) = take i xs" using assms(1) by (simp add: min_def)
  ultimately show ?thesis by simp
qed

lemma two_column_lookup:
  assumes "distinct (map cid comps)" "i < length comps"
  shows "map_of (fst (calculatePositions this comps (Some ''two-column''))) (cid (comps ! i))
           = Some (twoColumnExpected comps i)"
proof -
  let ?sb = "filter isSidebarType comps"
  let ?mn = "filter (\<lambda>c. \<not> isSidebarType c) comps"
  have P: "fst (calculatePositions this comps (Some ''two-column''))
      = setPositions mainPosition ?mn (setPositions sidebarPosition ?sb [])"
    by (simp add: calculatePositions_def Let_def)
  have dsb: "distinct (map cid ?sb)" and dmn: "distinct (map cid ?mn)"
    using assms(1) by (simp_all add: distinct_map_filter)
  have inj: "inj_on cid (set comps)"
    using assms(1) by (simp add: distinct_map)
  have mem: "comps ! i \<in> set comps" using assms(2) by simp
  show ?thesis
  proof (cases "isSidebarType (comps ! i)")
    case True
    let ?j = "length (filter isSidebarType (take i comps))"
    have j: "?j < length ?sb" "?sb ! ?j = comps ! i"
      using filter_nth_index [OF assms(2), of isSidebarType] True by simp_all
    have "cid (comps ! i) \<notin> cid ` set ?mn"
    proof
      assume "cid (comps ! i) \<in> cid ` set ?mn"
      then obtain c where c: "c \<in> set comps" "\<not> isSidebarType c" "cid c = cid (comps ! i)"
        by auto
      with inj mem have "c = comps ! i" by (simp add: inj_on_def)
      with c True show False by simp
    qed
    then have "map_of (setPositions mainPosition ?mn (setPositions sidebarPosition ?sb []))
        (cid (comps ! i)) = map_of (setPositions sidebarPosition ?sb []) (cid (?sb ! ?j))"
      by (simp add: setPositions_other j)
    also have "\<dots> = Some (sidebarPosition ?j)"
      using setPositions_nth [OF dsb j(1)] .
    finally have "map_of (setPositions mainPosition ?mn (setPositions sidebarPosition ?sb []))
        (cid (comps ! i)) = Some (sidebarPosition ?j)" .
    moreover have "twoColumnExpected comps i = sidebarPosition ?j"
      using True by (simp add: twoColumnExpected_def isSidebarType_def)
    ultimately show ?thesis
      by (simp only: P)
  next
    case False
    let ?j = "length (filter (\<lambda>c. \<not> isSidebarType c) (take i comps))"
    have j: "?j < length ?mn" "?mn ! ?j = comps ! i"
      using filter_nth_index [OF assms(2), of "\<lambda>c. \<not> isSidebarType c"] False by simp_all
    have "map_of (setPositions mainPosition ?mn (setPositions sidebarPosition ?sb []))
        (cid (?mn ! ?j)) = Some (mainPosition ?j)"
      using setPositions_nth [OF dmn j(1)] .
    then have "map_of (setPositions mainPosition ?mn (setPositions sidebarPosition ?sb []))
        (cid (comps ! i)) = Some (mainPosition ?j)"
      by (simp only: j(2))
    moreover have "twoColumnExpected comps i = mainPosition ?j"
      using False by (simp add: twoColumnExpected_def isSidebarType_def)
    ultimately show ?thesis
      by (simp only: P)
  qed
qed

text \<open>
  Claim C6. For a component list with pairwise distinct ids, layout \<open>two-column\<close>
  gives every component whose type is \<open>FilterPanel\<close> or \<open>NavigationPanel\<close> a
  position in area \<open>sidebar\<close> and every other component a position in area
  \<open>main\<close>; the order of a component is the number of components of the same area
  before it in the input list, so within an area the orders increase along the list.
\<close>

theorem two_column_positions:
  assumes "distinct (map cid comps)"
  shows "(\<forall>i < length comps.
            map_of (fst (calculatePositions this comps (Some ''two-column''))) (cid (comps ! i))
              = Some (twoColumnExpected comps i))
       \<and> (\<forall>i < length comps.
            area (twoColumnExpected comps i)
              = (if ctype (comps ! i) \<in> {''FilterPanel'', ''NavigationPanel''}
                 then ''sidebar'' else ''main''))
       \<and> (\<forall>i j. i < j \<and> j < length comps
              \<and> area (twoColumnExpected comps i) = area (twoColumnExpected comps j)
            \<longrightarrow> order (twoColumnExpected comps i) < order (twoColumnExpected comps j))"
proof -
  have a: "\<forall>i < length comps.
            map_of (fst (calculatePositions this comps (Some ''two-column''))) (cid (comps ! i))
              = Some (twoColumnExpected comps i)"
    using two_column_lookup [OF assms] by blast
  have b: "\<forall>i < length comps.
            area (twoColumnExpected comps i)
              = (if ctype (comps ! i) \<in> {''FilterPanel'', ''NavigationPanel''}
                 then ''sidebar'' else ''main'')"
    by (simp add: twoColumnExpected_def sidebarPosition_def mainPosition_def)
  have c: "order (twoColumnExpected comps i) < order (twoColumnExpected comps j)"
    if "i < j" "j < length comps"
       "area (twoColumnExpected comps i) = area (twoColumnExpected comps j)" for i j
  proof (cases "isSidebarType (comps ! i)")
    case True
    with that(3) have "isSidebarType (comps ! j)"
      by (auto simp: twoColumnExpected_def sidebarPosition_def mainPosition_def
          isSidebarType_def split: if_splits)
    with True show ?thesis
      using filter_take_mono [of i j comps isSidebarType] that(1,2)
      by (simp add: twoColumnExpected_def sidebarPosition_def isSidebarType_def)
  next
    case False
    with that(3) have "\<not> isSidebarType (comps ! j)"
      by (auto simp: twoColumnExpected_def sidebarPosition_def mainPosition_def
          isSidebarType_def split: if_splits)
    with False show ?thesis
      using filter_take_mono [of i j comps "\<lambda>c. \<not> isSidebarType c"] that(1,2)
      by (simp add: twoColumnExpected_def mainPosition_def isSidebarType_def)
  qed
  from a b c show ?thesis by blast
qed

theorem two_column_positions_witness:
  "distinct (map cid [gridState, filterState, navState])
   \<and> map_of (fst (calculatePositions \<lparr>currentLayout = Some ''default''\<rparr>
         [gridState, filterState, navState] (Some ''two-column''))) ''nav-1''
       = Some (sidebarPosition 1)
   \<and> map_of (fst (calculatePositions \<lparr>currentLayout = Some ''default''\<rparr>
         [gridState, filterState, navState] (Some ''two-column''))) ''grid-1''
       = Some (mainPosition 0)"
proof -
  let ?cs = "[gridState, filterState, navState]"
  have h: "distinct (map cid ?cs)"
    by (simp add: gridState_def filterState_def navState_def)
  have e2: "twoColumnExpected ?cs 2 = sidebarPosition 1"
    by (simp add: twoColumnExpected_def isSidebarType_def gridState_def filterState_def
        navState_def)
  have e0: "twoColumnExpected ?cs 0 = mainPosition 0"
    by (simp add: twoColumnExpected_def isSidebarType_def gridState_def)
  have c: "cid (?cs ! 2) = ''nav-1''" "cid (?cs ! 0) = ''grid-1''"
    by (simp_all add: navState_def gridState_def)
  from two_column_positions [OF h, of "\<lparr>currentLayout = Some ''default''\<rparr>"]
  have a: "\<forall>i < length ?cs.
      map_of (fst (calculatePositions \<lparr>currentLayout = Some ''default''\<rparr> ?cs (Some ''two-column'')))
        (cid (?cs ! i)) = Some (twoColumnExpected ?cs i)"
    by (rule conjunct1)
  have "map_of (fst (calculatePositions \<lparr>currentLayout = Some ''default''\<rparr> ?cs (Some ''two-column'')))
        (cid (?cs ! 2)) = Some (twoColumnExpected ?cs 2)"
    using a [rule_format, of 2] by simp
  moreover have "map_of (fst (calculatePositions \<lparr>currentLayout = Some ''default''\<rparr> ?cs (Some ''two-column'')))
        (cid (?cs ! 0)) = Some (twoColumnExpected ?cs 0)"
    using a [rule_format, of 0] by simp
  ultimately show ?thesis
    using h by (simp only: e2 e0 c)
qed

subsection \<open>Reorganize twice\<close>

lemma setPositions_sig:
  assumes "map sig xs = map sig ys"
  shows "setPositions f xs ps = setPositions f ys ps"
proof -
  have e: "fold (\<lambda>(index, component). AList.update (cid component) (f index)) (enumerate n xs) ps
      = fold (\<lambda>(index, k). AList.update k (f index)) (enumerate n (map cid xs)) ps" for n xs ps
    by (induction xs arbitrary: n ps) simp_all
  have c: "map cid zs = map fst (map sig zs)" for zs
    by (simp add: sig_def comp_def)
  have "map cid xs = map fst (map sig xs)" by (rule c)
  also have "\<dots> = map fst (map sig ys)" by (simp only: assms)
  also have "\<dots> = map cid ys" by (rule c [symmetric])
  finally have "map cid xs = map cid ys" .
  then show ?thesis
    by (simp add: setPositions_def e)
qed

lemma filter_sig:
  assumes "map sig xs = map sig ys"
  shows "map sig (filter isSidebarType xs) = map sig (filter isSidebarType ys)"
    and "map sig (filter (\<lambda>c. \<not> isSidebarType c) xs) = map sig (filter (\<lambda>c. \<not> isSidebarType c) ys)"
proof -
  have a: "map sig (filter isSidebarType zs)
      = filter (\<lambda>s. snd s \<in> set [''FilterPanel'', ''NavigationPanel'']) (map sig zs)" for zs
    by (induction zs) (simp_all add: isSidebarType_def sig_def)
  have b: "map sig (filter (\<lambda>c. \<not> isSidebarType c) zs)
      = filter (\<lambda>s. snd s \<notin> set [''FilterPanel'', ''NavigationPanel'']) (map sig zs)" for zs
    by (induction zs) (simp_all add: isSidebarType_def sig_def)
  show "map sig (filter isSidebarType xs) = map sig (filter isSidebarType ys)"
    by (simp only: a assms)
  show "map sig (filter (\<lambda>c. \<not> isSidebarType c) xs) = map sig (filter (\<lambda>c. \<not> isSidebarType c) ys)"
    by (simp only: b assms)
qed

lemma calculatePositions_sig:
  assumes "map sig xs = map sig ys"
  shows "fst (calculatePositions le xs layout) = fst (calculatePositions le' ys layout)"
proof -
  note s = setPositions_sig [OF assms]
  have tc: "setPositions mainPosition (filter (\<lambda>c. \<not> isSidebarType c) xs)
              (setPositions sidebarPosition (filter isSidebarType xs) [])
          = setPositions mainPosition (filter (\<lambda>c. \<not> isSidebarType c) ys)
              (setPositions sidebarPosition (filter isSidebarType ys) [])"
    using setPositions_sig [OF filter_sig(1) [OF assms]] setPositions_sig [OF filter_sig(2) [OF assms]]
    by simp
  show ?thesis
    by (simp add: calculatePositions_def Let_def s tc)
qed

lemma distinct_setPositions:
  "distinct (map fst ps) \<Longrightarrow> distinct (map fst (setPositions f xs ps))"
proof -
  have "distinct (map fst ps) \<Longrightarrow>
    distinct (map fst (fold (\<lambda>(index, component). AList.update (cid component) (f index))
      (enumerate n xs) ps))" for n
    by (induction xs arbitrary: n ps) (simp_all add: distinct_update)
  then show "distinct (map fst ps) \<Longrightarrow> distinct (map fst (setPositions f xs ps))"
    by (simp add: setPositions_def)
qed

lemma distinct_calculatePositions:
  "distinct (map fst (fst (calculatePositions le xs layout)))"
  by (simp add: calculatePositions_def Let_def distinct_setPositions)

lemma calculatePositions_snd:
  "snd (calculatePositions le xs layout) = le\<lparr>currentLayout := layout\<rparr>"
  by (simp add: calculatePositions_def Let_def)

lemma update_sig:
  "map_of al k = Some c \<Longrightarrow> sig c' = sig c \<Longrightarrow>
   map (\<lambda>(k, c). (k, sig c)) (AList.update k c' al) = map (\<lambda>(k, c). (k, sig c)) al"
  by (induction al) (auto split: if_splits)

lemma assignPosition_sig:
  "map (\<lambda>(k, c). (k, sig c)) (activeComponents (assignPosition e this))
     = map (\<lambda>(k, c). (k, sig c)) (activeComponents this)"
proof (cases e)
  case (Pair k p)
  show ?thesis
  proof (cases "map_of (activeComponents this) k")
    case None
    then show ?thesis by (simp add: Pair assignPosition_def)
  next
    case (Some c)
    have "sig (c\<lparr>position := p\<rparr>) = sig c" by (simp add: sig_def)
    from update_sig [OF Some this] show ?thesis
      using Some by (simp add: Pair assignPosition_def)
  qed
qed

lemma fold_assignPosition_sig:
  "map (\<lambda>(k, c). (k, sig c)) (activeComponents (fold assignPosition ps this))
     = map (\<lambda>(k, c). (k, sig c)) (activeComponents this)"
  by (induction ps arbitrary: this) (simp_all add: assignPosition_sig)

lemma keyed_sig_values:
  assumes "map (\<lambda>(k, c). (k, sig c)) al = map (\<lambda>(k, c). (k, sig c)) bl"
  shows "map sig (map snd al) = map sig (map snd bl) \<and> map fst al = map fst bl"
proof -
  have v: "map sig (map snd zl) = map snd (map (\<lambda>(k, c). (k, sig c)) zl)" for zl
    by (simp add: comp_def case_prod_unfold)
  have k: "map fst zl = map fst (map (\<lambda>(k, c). (k, sig c)) zl)" for zl
    by (simp add: comp_def case_prod_unfold)
  have "map sig (map snd al) = map snd (map (\<lambda>(k, c). (k, sig c)) al)" by (rule v)
  also have "\<dots> = map snd (map (\<lambda>(k, c). (k, sig c)) bl)" by (simp only: assms)
  also have "\<dots> = map sig (map snd bl)" by (rule v [symmetric])
  finally have a: "map sig (map snd al) = map sig (map snd bl)" .
  have "map fst al = map fst (map (\<lambda>(k, c). (k, sig c)) al)" by (rule k)
  also have "\<dots> = map fst (map (\<lambda>(k, c). (k, sig c)) bl)" by (simp only: assms)
  also have "\<dots> = map fst bl" by (rule k [symmetric])
  finally have b: "map fst al = map fst bl" .
  from a b show ?thesis by simp
qed

lemma assignPosition_layoutEngine [simp]:
  "layoutEngine (assignPosition e this) = layoutEngine this"
  by (cases e) (simp add: assignPosition_def split: option.splits)

lemma fold_assignPosition_layoutEngine [simp]:
  "layoutEngine (fold assignPosition ps this) = layoutEngine this"
  by (induction ps arbitrary: this) simp_all

lemma update_update_same: "AList.update k v (AList.update k v' al) = AList.update k v al"
  by (induction al) auto

lemma update_commute_present:
  "k \<noteq> k' \<Longrightarrow> map_of al k = Some c \<Longrightarrow> map_of al k' = Some c' \<Longrightarrow>
   AList.update k v (AList.update k' v' al) = AList.update k' v' (AList.update k v al)"
  by (induction al) (auto split: if_splits)

lemma assignPosition_idem:
  "assignPosition e (assignPosition e this) = assignPosition e this"
  by (cases e) (simp add: assignPosition_def update_conv' update_update_same split: option.splits)

lemma assignPosition_commute:
  assumes "fst e \<noteq> fst e'"
  shows "assignPosition e (assignPosition e' this) = assignPosition e' (assignPosition e this)"
proof -
  obtain k p k' p' where e: "e = (k, p)" "e' = (k', p')"
    by (cases e, cases e') auto
  with assms have ne: "k \<noteq> k'" by simp
  show ?thesis
  proof (cases "map_of (activeComponents this) k")
    case None
    then show ?thesis
      using ne by (simp add: e assignPosition_def update_conv' split: option.splits)
  next
    case (Some c)
    note kc = Some
    show ?thesis
    proof (cases "map_of (activeComponents this) k'")
      case None
      then show ?thesis
        using ne kc by (simp add: e assignPosition_def update_conv' split: option.splits)
    next
      case (Some c')
      then show ?thesis
        using ne kc update_commute_present [OF ne kc Some]
        by (simp add: e assignPosition_def update_conv')
    qed
  qed
qed

lemma assignPosition_fold_commute:
  assumes "fst e \<notin> fst ` set ps"
  shows "assignPosition e (fold assignPosition ps this) = fold assignPosition ps (assignPosition e this)"
proof (rule fold_commute_apply)
  fix x assume "x \<in> set ps"
  with assms have "fst e \<noteq> fst x" by auto
  then show "assignPosition e \<circ> assignPosition x = assignPosition x \<circ> assignPosition e"
    by (simp add: fun_eq_iff assignPosition_commute)
qed

lemma fold_assignPosition_idem:
  "distinct (map fst ps) \<Longrightarrow>
   fold assignPosition ps (fold assignPosition ps this) = fold assignPosition ps this"
proof (induction ps arbitrary: this)
  case Nil
  show ?case by simp
next
  case (Cons e ps)
  then have ne: "fst e \<notin> fst ` set ps" and d: "distinct (map fst ps)" by auto
  have "fold assignPosition (e # ps) (fold assignPosition (e # ps) this)
      = fold assignPosition ps (assignPosition e (fold assignPosition ps (assignPosition e this)))"
    by simp
  also have "\<dots> = fold assignPosition ps (fold assignPosition ps (assignPosition e (assignPosition e this)))"
    by (simp only: assignPosition_fold_commute [OF ne])
  also have "\<dots> = fold assignPosition ps (fold assignPosition ps (assignPosition e this))"
    by (simp only: assignPosition_idem)
  also have "\<dots> = fold assignPosition ps (assignPosition e this)"
    by (rule Cons.IH [OF d])
  finally show ?case by simp
qed

lemma reorganizeLayout_snd:
  "snd (reorganizeLayout orch layout this)
     = fold assignPosition (fst (calculatePositions (layoutEngine this) (map snd (activeComponents this)) layout))
         (this\<lparr>layoutEngine := (layoutEngine this)\<lparr>currentLayout := layout\<rparr>\<rparr>)"
  by (simp add: reorganizeLayout_def Let_def calculatePositions_snd split: prod.splits)
     (metis calculatePositions_snd fst_conv snd_conv)

lemma reorganizeLayout_twice:
  "snd (reorganizeLayout orch' layout (snd (reorganizeLayout orch layout this)))
     = snd (reorganizeLayout orch layout this)"
proof -
  let ?P = "fst (calculatePositions (layoutEngine this) (map snd (activeComponents this)) layout)"
  let ?le = "(layoutEngine this)\<lparr>currentLayout := layout\<rparr>"
  let ?this1 = "fold assignPosition ?P (this\<lparr>layoutEngine := ?le\<rparr>)"
  have r1: "snd (reorganizeLayout orch layout this) = ?this1"
    by (rule reorganizeLayout_snd)
  have "map (\<lambda>(k, c). (k, sig c)) (activeComponents ?this1)
      = map (\<lambda>(k, c). (k, sig c)) (activeComponents this)"
    by (simp add: fold_assignPosition_sig)
  then have "map sig (map snd (activeComponents ?this1)) = map sig (map snd (activeComponents this))"
    by (rule keyed_sig_values [THEN conjunct1])
  then have P2: "fst (calculatePositions (layoutEngine ?this1) (map snd (activeComponents ?this1)) layout) = ?P"
    by (rule calculatePositions_sig)
  have le: "?this1\<lparr>layoutEngine := (layoutEngine ?this1)\<lparr>currentLayout := layout\<rparr>\<rparr> = ?this1"
    by simp
  have "snd (reorganizeLayout orch' layout ?this1) = fold assignPosition ?P ?this1"
    by (simp only: reorganizeLayout_snd P2 le)
  also have "\<dots> = ?this1"
    by (rule fold_assignPosition_idem [OF distinct_calculatePositions])
  finally show ?thesis
    by (simp only: r1)
qed

lemma dispatch_reorganize:
  "e_action instr = ''reorganize'' \<Longrightarrow>
   dispatch registry orch clock instr this = reorganizeLayout orch (e_layout instr) this"
  by (simp add: dispatch_def)

text \<open>
  Claim C7. Processing a Reorganize instruction a second time leaves the engine as the
  first application left it: the same active components with the same ids, types, props,
  statuses and positions, and the same layout. The state snapshots taken after the two
  applications have the same components and the same layout, which is the layout key of
  the instruction; only their timestamps, read from the clock, can differ.
\<close>

theorem reorganize_idempotent:
  assumes "e_action instr = ''reorganize''"
  shows "engine (processInstruction registry orch' clock' instr
                  (engine (processInstruction registry orch clock instr this)))
           = engine (processInstruction registry orch clock instr this)
       \<and> s_components (getState clock' (engine (processInstruction registry orch' clock' instr
                  (engine (processInstruction registry orch clock instr this)))))
           = s_components (getState clock (engine (processInstruction registry orch clock instr this)))
       \<and> s_layout (getState clock' (engine (processInstruction registry orch' clock' instr
                  (engine (processInstruction registry orch clock instr this)))))
           = s_layout (getState clock (engine (processInstruction registry orch clock instr this)))
       \<and> s_layout (getState clock (engine (processInstruction registry orch clock instr this)))
           = e_layout instr"
proof -
  note d = dispatch_reorganize [OF assms]
  have e: "engine (processInstruction registry orch' clock' instr
                  (engine (processInstruction registry orch clock instr this)))
           = engine (processInstruction registry orch clock instr this)"
    by (simp only: processInstruction_engine d reorganizeLayout_twice)
  have l: "s_layout (getState clock (engine (processInstruction registry orch clock instr this)))
           = e_layout instr"
    by (simp add: processInstruction_engine d reorganizeLayout_snd getState_def getCurrentLayout_def)
  show ?thesis
    using l by (simp add: e getState_def)
qed

theorem reorganize_idempotent_witness:
  "e_action reorganizeInstr = ''reorganize''
   \<and> engine (processInstruction sampleRegistry allResolve clock0 reorganizeInstr
        (engine (processInstruction sampleRegistry allResolve clock0 reorganizeInstr sampleEngine)))
       = engine (processInstruction sampleRegistry allResolve clock0 reorganizeInstr sampleEngine)
   \<and> s_layout (getState clock0
        (engine (processInstruction sampleRegistry allResolve clock0 reorganizeInstr sampleEngine)))
       = Some ''two-column''"
proof -
  have h: "e_action reorganizeInstr = ''reorganize''"
    by (simp add: reorganizeInstr_def)
  have l: "e_layout reorganizeInstr = Some ''two-column''"
    by (simp add: reorganizeInstr_def)
  show ?thesis
    using h l reorganize_idempotent [OF h, of sampleRegistry allResolve clock0 allResolve clock0 sampleEngine]
    by simp
qed

section \<open>The lifecycle of a component\<close>

subsection \<open>The mutations of an instruction end at its result\<close>














subsection \<open>How each mutation moves the status of an id\<close>















subsection \<open>Successive states\<close>






subsection \<open>The moves of every run\<close>















subsection \<open>Runs that start settled, throw nothing and add fresh ids\<close>














end
